theory Spec2Isabelle
  imports Complex_Main
begin

section \<open>Data model\<close>

text \<open>
  A colour sample as \<^verbatim>\<open>getCanvasPixelColor\<close> delivers it and as \<^verbatim>\<open>setColors\<close>
  receives it: an object with the three fields \<^verbatim>\<open>r\<close>, \<^verbatim>\<open>g\<close>, \<^verbatim>\<open>b\<close>. The samples
  read from a canvas are 8-bit values; the object built by \<^verbatim>\<open>calcAverageColor\<close> holds
  whatever \<^verbatim>\<open>parseInt\<close> returns, so the fields are integers without a bound.
\<close>

record color =
  r :: int
  g :: int
  b :: int

text \<open>The value of the prop \<^verbatim>\<open>pickRadius\<close>: \<^verbatim>\<open>{ unit, amount }\<close>. The unit is a
  JavaScript string (Flow's annotation is not checked at run time), the amount an integer.\<close>

record pickRadius_t =
  unit :: string
  amount :: int

text \<open>
  The props of the component. A callback prop is modelled by whether it was passed
  (the code tests each one before calling it); what the host's callback does is
  outside the component, and the call itself is recorded in the trace of effects.
\<close>

record props =
  onInit :: bool
  onPickStart :: bool
  onPickClick :: bool
  onPickStop :: bool
  onPickCancel :: bool
  onPickEnd :: bool
  cursorActive :: "string option"
  cursorInactive :: "string option"
  passThrough :: "string option"
  pickRadius :: "pickRadius_t option"

text \<open>The two bound methods the component registers as document listeners.\<close>

datatype handler = TargetToCanvas | HandleKeydown

type_synonym element = nat

text \<open>The effects of the component that the outside can observe, in the order they happen:
  calls of the host's callbacks, of \<^verbatim>\<open>html2canvas\<close> and of \<^verbatim>\<open>getCanvasPixelColor\<close>.\<close>

datatype effect =
    OnInit | OnPickStart | OnPickClick | OnPickStop | OnPickCancel | OnPickEnd
  | OnChange string string
  | Html2canvas element
  | GetCanvasPixelColor int int

text \<open>
  The component instance together with the part of the document it touches:
  \<^item> \<open>colors\<close> is \<^verbatim>\<open>this.state.colors\<close> (the pair rgb, hex);
  \<^item> \<open>this_cursorActive\<close>, \<open>this_cursorInactive\<close>, \<open>picking\<close> are the instance fields;
  \<^item> \<open>listeners\<close> is the document's list of event listeners (type and callback);
  \<^item> \<open>body_cursor\<close> is \<^verbatim>\<open>document.body.style.cursor\<close>;
  \<^item> \<open>pending\<close> holds, for every promise of \<^verbatim>\<open>html2canvas\<close> that has not been
    resolved yet, the offsets its continuation has captured;
  \<^item> \<open>trace\<close> is the list of effects so far.
\<close>

record state =
  colors :: "string \<times> string"
  this_cursorActive :: string
  this_cursorInactive :: string
  picking :: bool
  listeners :: "(string \<times> handler) list"
  body_cursor :: string
  pending :: "(int \<times> int) list"
  trace :: "effect list"

type_synonym canvas = "int \<Rightarrow> int \<Rightarrow> color"

text \<open>What the continuation can throw: the two errors of \<^verbatim>\<open>extractColors\<close>, and the
  TypeError of destructuring an absent \<^verbatim>\<open>pickRadius\<close>.\<close>

datatype error = PixelEvenAmount | ImproperUnit | TypeError

section \<open>Strings\<close>

definition digit :: "nat \<Rightarrow> char" where
  "digit n = ''0123456789abcdef'' ! n"

text \<open>The digits of a natural number in base 10 and in base 16, most significant first.\<close>

fun digits10 :: "nat \<Rightarrow> string" where
  "digits10 n = (if n < 10 then [digit n] else digits10 (n div 10) @ [digit (n mod 10)])"

fun digits16 :: "nat \<Rightarrow> string" where
  "digits16 n = (if n < 16 then [digit n] else digits16 (n div 16) @ [digit (n mod 16)])"

declare digits10.simps [simp del] digits16.simps [simp del]

text \<open>\<^verbatim>\<open>`${n}`\<close> and \<^verbatim>\<open>n.toString(16)\<close> for an integer: a minus sign, then the digits
  of the absolute value.\<close>

definition toString10 :: "int \<Rightarrow> string" where
  "toString10 n = (if n < 0 then CHR ''-'' # digits10 (nat (- n)) else digits10 (nat n))"

definition toString16 :: "int \<Rightarrow> string" where
  "toString16 n = (if n < 0 then CHR ''-'' # digits16 (nat (- n)) else digits16 (nat n))"

text \<open>
  Modelled from the spec: zero-padding of one channel to two hex digits, a part of the
  helper module \<^verbatim>\<open>./rgbToHex\<close>, which the source imports and does not contain.
\<close>

definition pad2 :: "string \<Rightarrow> string" where
  "pad2 h = (if length h = 1 then CHR ''0'' # h else h)"

text \<open>
  Modelled from the spec: the helper module \<^verbatim>\<open>./rgbToHex\<close> is imported by the source
  but is not part of it. The spec says of the hex form of a colour that it is a leading
  marker character followed by the channels R, G, B, each zero-padded to two hex digits,
  and that the decimal form has G and B swapped relative to the hex form. The source
  hands the channels to the helper in the order of the decimal form, \<^verbatim>\<open>(r, b, g)\<close>. So
  the helper's parameters are red, blue, green, and its result has them in the order
  red, green, blue. The marker is taken to be the number sign.
\<close>

definition rgbToHex :: "int \<Rightarrow> int \<Rightarrow> int \<Rightarrow> string" where
  "rgbToHex red blue green =
     CHR ''#'' # pad2 (toString16 red) @ pad2 (toString16 green) @ pad2 (toString16 blue)"

section \<open>Effects and the document\<close>

definition emit :: "effect \<Rightarrow> state \<Rightarrow> state" where
  "emit e s = s\<lparr>trace := trace s @ [e]\<rparr>"

text \<open>\<^verbatim>\<open>if (cb) { cb() }\<close>\<close>

definition call_if :: "bool \<Rightarrow> effect \<Rightarrow> state \<Rightarrow> state" where
  "call_if present e s = (if present then emit e s else s)"

text \<open>The DOM keeps one registration per type and callback, and removal takes the
  registration of exactly that type and callback away.\<close>

definition addEventListener :: "string \<Rightarrow> handler \<Rightarrow> state \<Rightarrow> state" where
  "addEventListener ty h s =
     (if (ty, h) \<in> set (listeners s) then s else s\<lparr>listeners := listeners s @ [(ty, h)]\<rparr>)"

definition removeEventListener :: "string \<Rightarrow> handler \<Rightarrow> state \<Rightarrow> state" where
  "removeEventListener ty h s = s\<lparr>listeners := removeAll (ty, h) (listeners s)\<rparr>"

text \<open>JavaScript truthiness of an optional string prop: absent and empty are falsy.\<close>

definition truthy :: "string option \<Rightarrow> bool" where
  "truthy v = (case v of None \<Rightarrow> False | Some t \<Rightarrow> t \<noteq> [])"

text \<open>\<^verbatim>\<open>v ? v : d\<close>\<close>

definition or_else :: "string option \<Rightarrow> string \<Rightarrow> string" where
  "or_else v d = (case v of None \<Rightarrow> d | Some t \<Rightarrow> if t \<noteq> [] then t else d)"

section \<open>The component\<close>

definition constructor :: "props \<Rightarrow> string \<Rightarrow> state" where
  "constructor p cur =
     \<lparr> colors = ('''', ''''),
       this_cursorActive = or_else (cursorActive p) ''copy'',
       this_cursorInactive = or_else (cursorInactive p) ''auto'',
       picking = False,
       listeners = [],
       body_cursor = cur,
       pending = [],
       trace = [] \<rparr>"

definition componentDidMount :: "props \<Rightarrow> state \<Rightarrow> state" where
  "componentDidMount p s = call_if (onInit p) OnInit s"

definition componentWillUnmount :: "state \<Rightarrow> state" where
  "componentWillUnmount s = removeEventListener ''keypress'' HandleKeydown s"

definition pickColor :: "props \<Rightarrow> state \<Rightarrow> state" where
  "pickColor p s =
     (let s1 = call_if (onPickStart p) OnPickStart s;
          s2 = s1\<lparr>body_cursor := this_cursorActive s1\<rparr>;
          s3 = addEventListener ''click'' TargetToCanvas s2;
          s4 = addEventListener ''keydown'' HandleKeydown s3
      in s4\<lparr>picking := True\<rparr>)"

definition stopPicking :: "props \<Rightarrow> state \<Rightarrow> state" where
  "stopPicking p s =
     (let s1 = removeEventListener ''click'' TargetToCanvas s;
          s2 = removeEventListener ''keydown'' HandleKeydown s1;
          s3 = s2\<lparr>body_cursor := this_cursorInactive s2\<rparr>;
          s4 = call_if (onPickStop p) OnPickStop s3
      in s4\<lparr>picking := False\<rparr>)"

definition cancelPick :: "props \<Rightarrow> state \<Rightarrow> state" where
  "cancelPick p s =
     (if picking s then stopPicking p (call_if (onPickCancel p) OnPickCancel s) else s)"

definition handleKeydown :: "props \<Rightarrow> string \<Rightarrow> state \<Rightarrow> state" where
  "handleKeydown p key s = (if key = ''Escape'' then cancelPick p s else s)"

text \<open>
  The click listener. \<^verbatim>\<open>html2canvas\<close> is called first and returns a promise; the
  callback given to \<^verbatim>\<open>then\<close> never runs before the listener has returned, so the
  listener only queues it (with the offsets it has captured), calls the click hook and
  tears the picking mode down.
\<close>

definition targetToCanvas :: "props \<Rightarrow> element \<times> int \<times> int \<Rightarrow> state \<Rightarrow> state" where
  "targetToCanvas p e s =
     (case e of (target, offsetX, offsetY) \<Rightarrow>
        let s1 = emit (Html2canvas target) s;
            s2 = s1\<lparr>pending := pending s1 @ [(offsetX, offsetY)]\<rparr>;
            s3 = call_if (onPickClick p) OnPickClick s2
        in stopPicking p s3)"

definition setColors :: "props \<Rightarrow> color \<Rightarrow> state \<Rightarrow> state" where
  "setColors p c s =
     (let rgb = ''rgb('' @ toString10 (r c) @ '', '' @ toString10 (b c) @ '', ''
                  @ toString10 (g c) @ '')'';
          hex = rgbToHex (r c) (b c) (g c);
          s1 = (if truthy (passThrough p) then s\<lparr>colors := (rgb, hex)\<rparr> else s);
          s2 = emit (OnChange rgb hex) s1
      in call_if (onPickEnd p) OnPickEnd s2)"

definition extractColor :: "props \<Rightarrow> canvas \<Rightarrow> int \<Rightarrow> int \<Rightarrow> state \<Rightarrow> state" where
  "extractColor p cv offsetX offsetY s =
     setColors p (cv offsetX offsetY) (emit (GetCanvasPixelColor offsetX offsetY) s)"

subsection \<open>Averaging\<close>

text \<open>
  JavaScript numbers are IEEE doubles; here they are real numbers, \<^verbatim>\<open>Math.sqrt\<close> the real
  square root and \<^verbatim>\<open>/\<close> the real division. The squares and sums of 8-bit samples are
  the same in both; a square root is rounded in a double, so a total that has gone
  through a square root is known here up to that rounding only, and what is proved of
  such totals below is their range, not their last digit. \<^verbatim>\<open>parseInt\<close> of a number
  drops the fraction (on the range where the number prints in plain decimal notation,
  which is where the totals of 8-bit samples lie).
\<close>

definition parseInt :: "real \<Rightarrow> int" where
  "parseInt v = (if v < 0 then \<lceil>v\<rceil> else \<lfloor>v\<rfloor>)"

text \<open>The body of the callback of \<^verbatim>\<open>colors.map\<close>: the three totals, one sample and
  its index.\<close>

definition calcStep :: "real \<times> real \<times> real \<Rightarrow> nat \<times> color \<Rightarrow> real \<times> real \<times> real" where
  "calcStep tot ic =
     (case tot of (totalR, totalG, totalB) \<Rightarrow>
      case ic of (index, c) \<Rightarrow>
        let totalR = totalR + real_of_int (r c) * real_of_int (r c);
            totalG = totalG + real_of_int (g c) * real_of_int (g c);
            totalB = totalB + real_of_int (b c) * real_of_int (b c)
        in if index \<noteq> 0
           then (sqrt (totalR / 2), sqrt (totalG / 2), sqrt (totalB / 2))
           else (totalR, totalG, totalB))"

definition calcTotals :: "color list \<Rightarrow> real \<times> real \<times> real" where
  "calcTotals cs = foldl calcStep (0, 0, 0) (enumerate 0 cs)"

text \<open>The object that \<^verbatim>\<open>calcAverageColor\<close> hands to \<^verbatim>\<open>setColors\<close>.\<close>

definition averageOf :: "color list \<Rightarrow> color" where
  "averageOf cs =
     (case calcTotals cs of (totalR, totalG, totalB) \<Rightarrow>
        \<lparr>r = parseInt totalR, g = parseInt totalG, b = parseInt totalB\<rparr>)"

definition calcAverageColor :: "props \<Rightarrow> color list \<Rightarrow> state \<Rightarrow> state" where
  "calcAverageColor p cs s = setColors p (averageOf cs) s"

subsection \<open>Gathering the neighbourhood\<close>

text \<open>The first part of \<^verbatim>\<open>extractColors\<close>: \<open>(maxRadius, minRadius)\<close>, or the error
  thrown. For an odd amount \<^verbatim>\<open>(amount - 1) / 2\<close> is an exact division.\<close>

definition radii :: "pickRadius_t \<Rightarrow> error + int \<times> int" where
  "radii pr =
     (if unit pr = ''radius'' then Inr (amount pr, - (amount pr) - 1)
      else if unit pr = ''pixel'' then
        (if amount pr mod 2 \<noteq> 0
         then Inr ((amount pr - 1) div 2, - ((amount pr - 1) div 2) - 1)
         else Inl PixelEvenAmount)
      else Inl ImproperUnit)"

text \<open>The body of the inner loop: the samples so far and the state.\<close>

definition sample :: "canvas \<Rightarrow> int \<Rightarrow> int \<Rightarrow> color list \<times> state \<Rightarrow> color list \<times> state" where
  "sample cv radialOffsetX radialOffsetY acc =
     (case acc of (cs, s) \<Rightarrow>
        if \<not> radialOffsetX < 0 \<and> \<not> radialOffsetY < 0
        then (cs @ [cv radialOffsetX radialOffsetY],
              emit (GetCanvasPixelColor radialOffsetX radialOffsetY) s)
        else (cs, s))"

text \<open>
  The two loops run \<^verbatim>\<open>while (x !== minRadius)\<close>, counting down: started below
  \<open>minRadius\<close> they never stop, and then the value is \<open>None\<close>.
\<close>

partial_function (option) loopY ::
  "canvas \<Rightarrow> int \<Rightarrow> int \<Rightarrow> int \<Rightarrow> int \<Rightarrow> int \<Rightarrow> color list \<times> state
     \<Rightarrow> (color list \<times> state) option" where
  "loopY cv offsetX offsetY minRadius x y acc =
     (if y \<noteq> minRadius
      then loopY cv offsetX offsetY minRadius x (y - 1) (sample cv (offsetX - x) (offsetY - y) acc)
      else Some acc)"

partial_function (option) loopX ::
  "canvas \<Rightarrow> int \<Rightarrow> int \<Rightarrow> int \<Rightarrow> int \<Rightarrow> int \<Rightarrow> color list \<times> state
     \<Rightarrow> (color list \<times> state) option" where
  "loopX cv offsetX offsetY maxRadius minRadius x acc =
     (if x \<noteq> minRadius
      then Option.bind (loopY cv offsetX offsetY minRadius x maxRadius acc)
             (\<lambda>acc'. loopX cv offsetX offsetY maxRadius minRadius (x - 1) acc')
      else Some acc)"

text \<open>
  \<^verbatim>\<open>extractColors\<close>: \<open>None\<close> when the loops do not end, \<open>Some (Inl (e, s'))\<close> when
  \<open>e\<close> is thrown in state \<open>s'\<close>, \<open>Some (Inr s')\<close> when it returns in state \<open>s'\<close>.
\<close>

definition extractColors ::
  "props \<Rightarrow> canvas \<Rightarrow> int \<Rightarrow> int \<Rightarrow> state \<Rightarrow> ((error \<times> state) + state) option" where
  "extractColors p cv offsetX offsetY s =
     (case pickRadius p of
        None \<Rightarrow> Some (Inl (TypeError, s))
      | Some pr \<Rightarrow>
         (case radii pr of
            Inl e \<Rightarrow> Some (Inl (e, s))
          | Inr (maxRadius, minRadius) \<Rightarrow>
              (case loopX cv offsetX offsetY maxRadius minRadius maxRadius ([], s) of
                 None \<Rightarrow> None
               | Some (cs, s') \<Rightarrow> Some (Inr (calcAverageColor p cs s')))))"

text \<open>
  The callback given to \<^verbatim>\<open>then\<close> in \<^verbatim>\<open>targetToCanvas\<close>, run when the oldest pending
  promise of \<^verbatim>\<open>html2canvas\<close> is resolved with the canvas \<open>cv\<close>.
\<close>

definition canvasResolved ::
  "props \<Rightarrow> canvas \<Rightarrow> state \<Rightarrow> ((error \<times> state) + state) option" where
  "canvasResolved p cv s =
     (case pending s of
        [] \<Rightarrow> Some (Inr s)
      | (offsetX, offsetY) # rest \<Rightarrow>
          (let s1 = s\<lparr>pending := rest\<rparr>
           in if pickRadius p \<noteq> None
              then extractColors p cv offsetX offsetY s1
              else Some (Inr (extractColor p cv offsetX offsetY s1))))"

section \<open>The specification's wording\<close>

text \<open>
  The running reduction of one channel, over the reals: the accumulator,
  whether the next sample is the first one, and the channel values still to come. Every
  sample adds its square; every sample but the first then replaces the accumulator by
  the square root of its half.
\<close>

fun running :: "real \<Rightarrow> bool \<Rightarrow> int list \<Rightarrow> real" where
  "running acc first [] = acc"
| "running acc first (v # vs) =
     running (if first then acc + (real_of_int v)\<^sup>2
              else sqrt ((acc + (real_of_int v)\<^sup>2) / 2)) False vs"

text \<open>
  A neighbourhood spec is valid when its unit is \<^verbatim>\<open>pixel\<close> and its amount is positive
  and odd, or its unit is \<^verbatim>\<open>radius\<close> and its amount is not negative. It is invalid,
  in the sense of the error handling, when its unit is neither of the two, or its unit is
  \<^verbatim>\<open>pixel\<close> and its amount is even.
\<close>

definition valid_spec :: "pickRadius_t \<Rightarrow> bool" where
  "valid_spec pr =
     (unit pr = ''pixel'' \<and> 0 < amount pr \<and> amount pr mod 2 = 1 \<or>
      unit pr = ''radius'' \<and> 0 \<le> amount pr)"

definition invalid_spec :: "pickRadius_t \<Rightarrow> bool" where
  "invalid_spec pr =
     (unit pr \<noteq> ''pixel'' \<and> unit pr \<noteq> ''radius'' \<or> unit pr = ''pixel'' \<and> amount pr mod 2 = 0)"

text \<open>The radii as the specification gives them: for \<^verbatim>\<open>pixel\<close>, \<open>maxRadius\<close> is
  \<open>(amount - 1) / 2\<close> and \<open>minRadius\<close> is \<open>- maxRadius - 1\<close>; for \<^verbatim>\<open>radius\<close> they are
  \<open>amount\<close> and \<open>- amount - 1\<close>.\<close>

definition spec_radii :: "pickRadius_t \<Rightarrow> int \<times> int" where
  "spec_radii pr =
     (if unit pr = ''pixel''
      then ((amount pr - 1) div 2, - ((amount pr - 1) div 2) - 1)
      else (amount pr, - amount pr - 1))"

text \<open>The offsets from \<open>hi\<close> down to \<open>lo\<close>, \<open>lo\<close> excluded.\<close>

definition countdown :: "int \<Rightarrow> int \<Rightarrow> int list" where
  "countdown hi lo = rev [lo + 1..hi]"

text \<open>
  The coordinates the specification has sampled, in order: the offset \<open>x\<close> runs from
  \<open>maxRadius\<close> down to \<open>minRadius\<close> (excluded), for each \<open>x\<close> the offset \<open>y\<close> runs the
  same way, the coordinate of a pair is \<open>(cx - x, cy - y)\<close>, and a coordinate with a
  negative component is skipped.
\<close>

definition spec_coords :: "pickRadius_t \<Rightarrow> int \<Rightarrow> int \<Rightarrow> (int \<times> int) list" where
  "spec_coords pr cx cy =
     (case spec_radii pr of (maxRadius, minRadius) \<Rightarrow>
        [(cx - x, cy - y). x \<leftarrow> countdown maxRadius minRadius,
                           y \<leftarrow> countdown maxRadius minRadius,
                           \<not> cx - x < 0 \<and> \<not> cy - y < 0])"

text \<open>The calls of \<^verbatim>\<open>getCanvasPixelColor\<close> for a list of coordinates, and the colours
  they return.\<close>

definition reads :: "(int \<times> int) list \<Rightarrow> effect list" where
  "reads xys = map (\<lambda>(x, y). GetCanvasPixelColor x y) xys"

definition pixels :: "canvas \<Rightarrow> (int \<times> int) list \<Rightarrow> color list" where
  "pixels cv xys = map (\<lambda>(x, y). cv x y) xys"

text \<open>The totals on which dropping the fraction is what \<^verbatim>\<open>parseInt\<close> does: zero, or a
  number from one half up to 65025, which JavaScript prints in plain decimal notation.\<close>

definition plain :: "real \<Rightarrow> bool" where
  "plain v = (v = 0 \<or> 1 / 2 \<le> v \<and> v \<le> 65025)"

section \<open>Observing a run\<close>

text \<open>The callbacks of the lifecycle among the effects, and whether the host passed one.\<close>

fun is_hook :: "effect \<Rightarrow> bool" where
  "is_hook (OnChange rgb hex) = False"
| "is_hook (Html2canvas t) = False"
| "is_hook (GetCanvasPixelColor x y) = False"
| "is_hook e = True"

fun supplied :: "props \<Rightarrow> effect \<Rightarrow> bool" where
  "supplied p OnInit = onInit p"
| "supplied p OnPickStart = onPickStart p"
| "supplied p OnPickClick = onPickClick p"
| "supplied p OnPickStop = onPickStop p"
| "supplied p OnPickCancel = onPickCancel p"
| "supplied p OnPickEnd = onPickEnd p"
| "supplied p e = False"

text \<open>The trace of the outcome of a continuation, seen through \<open>f\<close>.\<close>

definition on_trace :: "(effect list \<Rightarrow> effect list) \<Rightarrow> ((error \<times> state) + state) option \<Rightarrow>
    ((error \<times> effect list) + effect list) option" where
  "on_trace f res = map_option (map_sum (map_prod id (f \<circ> trace)) (f \<circ> trace)) res"

section \<open>Concrete inputs\<close>

text \<open>Props with every callback passed and no \<^verbatim>\<open>pickRadius\<close>; the same with a
  neighbourhood of \<open>n\<close> pixels.\<close>

definition all_hooks :: props where
  "all_hooks = \<lparr> onInit = True, onPickStart = True, onPickClick = True, onPickStop = True,
     onPickCancel = True, onPickEnd = True, cursorActive = None, cursorInactive = None,
     passThrough = None, pickRadius = None \<rparr>"

definition pixel_props :: "int \<Rightarrow> props" where
  "pixel_props n = all_hooks\<lparr>pickRadius := Some \<lparr>unit = ''pixel'', amount = n\<rparr>\<rparr>"

text \<open>Three canvases: all black, one whose pixel at \<open>(x, y)\<close> has the channels
  \<open>(x, y, 0)\<close>, and one of the single colour (10, 20, 30).\<close>

definition blank :: canvas where
  "blank x y = \<lparr>r = 0, g = 0, b = 0\<rparr>"

definition gradient :: canvas where
  "gradient x y = \<lparr>r = x, g = y, b = 0\<rparr>"

definition swatch :: canvas where
  "swatch x y = \<lparr>r = 10, g = 20, b = 30\<rparr>"

section \<open>Averaging: the range of the totals\<close>

lemma foldl_calcStep:
  "foldl calcStep (t1, t2, t3) (enumerate k cs) =
     (running t1 (k = 0) (map r cs), running t2 (k = 0) (map g cs), running t3 (k = 0) (map b cs))"
  by (induction cs arbitrary: t1 t2 t3 k) (simp_all add: calcStep_def power2_eq_square)

lemma calcTotals_running:
  "calcTotals cs =
     (running 0 True (map r cs), running 0 True (map g cs), running 0 True (map b cs))"
  using foldl_calcStep [of 0 0 0 0 cs] by (simp add: calcTotals_def)

lemma blend_le_255:
  assumes "0 \<le> acc" "acc \<le> 65025" "0 \<le> v" "v \<le> 255"
  shows "sqrt ((acc + (real_of_int v)\<^sup>2) / 2) \<le> 255"
proof -
  have "(real_of_int v)\<^sup>2 \<le> 255\<^sup>2"
    using assms by (intro power_mono) simp_all
  then have "(acc + (real_of_int v)\<^sup>2) / 2 \<le> 255\<^sup>2" using assms by simp
  then show ?thesis by (intro real_le_lsqrt) (use assms in simp_all)
qed

lemma running_bounded:
  assumes "0 \<le> acc" "acc \<le> 255" "\<forall>v \<in> set vs. 0 \<le> v \<and> v \<le> 255"
  shows "0 \<le> running acc False vs \<and> running acc False vs \<le> 255"
  using assms
proof (induction vs arbitrary: acc)
  case Nil
  then show ?case by simp
next
  case (Cons v vs)
  have "sqrt ((acc + (real_of_int v)\<^sup>2) / 2) \<le> 255"
    using Cons.prems by (intro blend_le_255) simp_all
  moreover have "0 \<le> sqrt ((acc + (real_of_int v)\<^sup>2) / 2)"
    using Cons.prems by simp
  ultimately show ?case using Cons.IH Cons.prems by simp
qed

lemma running_two_bounded:
  assumes "2 \<le> length vs" "\<forall>v \<in> set vs. 0 \<le> v \<and> v \<le> 255"
  shows "0 \<le> running 0 True vs \<and> running 0 True vs \<le> 255"
proof -
  from assms(1) obtain v1 v2 ws where vs: "vs = v1 # v2 # ws"
    by (cases vs; cases "tl vs") auto
  have v1: "0 \<le> v1" "v1 \<le> 255" and v2: "0 \<le> v2" "v2 \<le> 255" using assms(2) vs by auto
  have "(real_of_int v1)\<^sup>2 \<le> 255\<^sup>2" using v1 by (intro power_mono) simp_all
  then have a: "(real_of_int v1)\<^sup>2 \<le> 65025" by simp
  have "sqrt (((real_of_int v1)\<^sup>2 + (real_of_int v2)\<^sup>2) / 2) \<le> 255"
    using a v2 by (intro blend_le_255) simp_all
  moreover have "0 \<le> sqrt (((real_of_int v1)\<^sup>2 + (real_of_int v2)\<^sup>2) / 2)" by simp
  ultimately show ?thesis
    using running_bounded [of "sqrt (((real_of_int v1)\<^sup>2 + (real_of_int v2)\<^sup>2) / 2)" ws]
      assms(2) vs
    by simp
qed

text \<open>
  Claim C10. For two or more samples with every channel in 0..255, every channel of the
  colour that \<^verbatim>\<open>calcAverageColor\<close> reports is in 0..255: after the second sample a total
  is at most 255, and it stays there, since the square root of (255 + 65025) / 2 is below
  255.
\<close>

theorem averageOf_in_range:
  assumes "2 \<le> length cs"
    and "\<forall>c \<in> set cs. 0 \<le> r c \<and> r c \<le> 255 \<and> 0 \<le> g c \<and> g c \<le> 255 \<and> 0 \<le> b c \<and> b c \<le> 255"
  shows "0 \<le> r (averageOf cs) \<and> r (averageOf cs) \<le> 255 \<and>
         0 \<le> g (averageOf cs) \<and> g (averageOf cs) \<le> 255 \<and>
         0 \<le> b (averageOf cs) \<and> b (averageOf cs) \<le> 255"
proof -
  have R: "0 \<le> running 0 True (map r cs) \<and> running 0 True (map r cs) \<le> 255"
    using assms by (intro running_two_bounded) auto
  have G: "0 \<le> running 0 True (map g cs) \<and> running 0 True (map g cs) \<le> 255"
    using assms by (intro running_two_bounded) auto
  have B: "0 \<le> running 0 True (map b cs) \<and> running 0 True (map b cs) \<le> 255"
    using assms by (intro running_two_bounded) auto
  have fl: "0 \<le> parseInt v \<and> parseInt v \<le> 255" if "0 \<le> v \<and> v \<le> 255" for v
    using that by (simp add: parseInt_def floor_le_iff)
  show ?thesis
    using fl [OF R] fl [OF G] fl [OF B] by (simp add: averageOf_def calcTotals_running)
qed

theorem averageOf_in_range_witness:
  "2 \<le> length [\<lparr>r = 255, g = 255, b = 255\<rparr>, \<lparr>r = 255, g = 0, b = 16\<rparr>] \<and>
   list_all (\<lambda>c. 0 \<le> r c \<and> r c \<le> 255 \<and> 0 \<le> g c \<and> g c \<le> 255 \<and> 0 \<le> b c \<and> b c \<le> 255)
     [\<lparr>r = 255, g = 255, b = 255\<rparr>, \<lparr>r = 255, g = 0, b = 16\<rparr>] \<and>
   0 \<le> r (averageOf [\<lparr>r = 255, g = 255, b = 255\<rparr>, \<lparr>r = 255, g = 0, b = 16\<rparr>]) \<and>
   r (averageOf [\<lparr>r = 255, g = 255, b = 255\<rparr>, \<lparr>r = 255, g = 0, b = 16\<rparr>]) \<le> 255 \<and>
   0 \<le> g (averageOf [\<lparr>r = 255, g = 255, b = 255\<rparr>, \<lparr>r = 255, g = 0, b = 16\<rparr>]) \<and>
   g (averageOf [\<lparr>r = 255, g = 255, b = 255\<rparr>, \<lparr>r = 255, g = 0, b = 16\<rparr>]) \<le> 255 \<and>
   0 \<le> b (averageOf [\<lparr>r = 255, g = 255, b = 255\<rparr>, \<lparr>r = 255, g = 0, b = 16\<rparr>]) \<and>
   b (averageOf [\<lparr>r = 255, g = 255, b = 255\<rparr>, \<lparr>r = 255, g = 0, b = 16\<rparr>]) \<le> 255"
  using averageOf_in_range [of "[\<lparr>r = 255, g = 255, b = 255\<rparr>, \<lparr>r = 255, g = 0, b = 16\<rparr>]"]
  by simp

text \<open>
  For samples with channels in 0..255 every total is zero or lies between one half and
  65025, so \<^verbatim>\<open>parseInt\<close> sees a number printed in plain decimal notation.
\<close>

lemma blend_plain:
  assumes "plain acc" "0 \<le> v" "v \<le> 255"
  shows "plain (sqrt ((acc + (real_of_int v)\<^sup>2) / 2))"
proof (cases "acc = 0 \<and> v = 0")
  case True
  then show ?thesis by (simp add: plain_def)
next
  case False
  have acc: "0 \<le> acc" "acc \<le> 65025" using assms(1) by (auto simp: plain_def)
  have sq: "(real_of_int v)\<^sup>2 \<le> 255\<^sup>2" using assms by (intro power_mono) simp_all
  have "1 / 2 \<le> acc + (real_of_int v)\<^sup>2"
  proof (cases "v = 0")
    case True
    then show ?thesis using False assms(1) by (auto simp: plain_def)
  next
    case False
    then have "1 \<le> v" using assms by simp
    then have "1 \<le> real_of_int v" by simp
    then have "1 \<le> (real_of_int v)\<^sup>2" by (rule one_le_power)
    then show ?thesis using acc by simp
  qed
  then have "(1 / 2)\<^sup>2 \<le> (acc + (real_of_int v)\<^sup>2) / 2" by (simp add: power2_eq_square)
  then have lo: "1 / 2 \<le> sqrt ((acc + (real_of_int v)\<^sup>2) / 2)"
    by (intro real_le_rsqrt)
  have "sqrt ((acc + (real_of_int v)\<^sup>2) / 2) \<le> 255"
    using acc assms by (intro blend_le_255) simp_all
  then show ?thesis using lo by (simp add: plain_def)
qed

lemma running_plain:
  assumes "plain acc" "\<forall>v \<in> set vs. 0 \<le> v \<and> v \<le> 255"
  shows "plain (running acc False vs)"
  using assms
proof (induction vs arbitrary: acc)
  case Nil
  then show ?case by simp
next
  case (Cons v vs)
  have "plain (sqrt ((acc + (real_of_int v)\<^sup>2) / 2))"
    using Cons.prems by (intro blend_plain) simp_all
  then show ?case using Cons.IH Cons.prems by simp
qed

lemma totals_plain:
  assumes "\<forall>v \<in> set vs. 0 \<le> v \<and> v \<le> 255"
  shows "plain (running 0 True vs)"
proof (cases vs)
  case Nil
  then show ?thesis by (simp add: plain_def)
next
  case (Cons v ws)
  have v: "0 \<le> v" "v \<le> 255" using assms Cons by simp_all
  have sq: "(real_of_int v)\<^sup>2 \<le> 255\<^sup>2" using v by (intro power_mono) simp_all
  have "plain ((real_of_int v)\<^sup>2)"
  proof (cases "v = 0")
    case True
    then show ?thesis by (simp add: plain_def)
  next
    case False
    then have "1 \<le> v" using v by simp
    then have "1 \<le> real_of_int v" by simp
    then have "1 \<le> (real_of_int v)\<^sup>2" by (rule one_le_power)
    then show ?thesis using sq by (simp add: plain_def)
  qed
  then show ?thesis using running_plain [of "(real_of_int v)\<^sup>2" ws] assms Cons by simp
qed

section \<open>The two encodings\<close>

lemma pad2_toString16:
  assumes "0 \<le> v" "v \<le> 255"
  shows "length (pad2 (toString16 v)) = 2"
proof (cases "v < 16")
  case True
  then have "nat v < 16" by simp
  then show ?thesis using assms by (simp add: toString16_def pad2_def digits16.simps [of "nat v"])
next
  case False
  then have "\<not> nat v < 16" and "nat v div 16 < 16" using assms by simp_all
  then show ?thesis using assms
    by (simp add: toString16_def pad2_def digits16.simps [of "nat v"]
          digits16.simps [of "nat v div 16"])
qed

text \<open>
  Claim C3. For a colour with channels (R, G, B) in 0..255, \<^verbatim>\<open>setColors\<close> calls the
  result callback once, with the decimal string \<^verbatim>\<open>rgb(R, B, G)\<close>, channels 2 and 3
  swapped, and with the hex string made of the marker and the channels in the order
  R, G, B, each zero-padded to exactly two hex digits (the hex helper being the one the
  specification describes); the end hook follows when it was passed.
\<close>

theorem setColors_encodings:
  assumes "0 \<le> r c \<and> r c \<le> 255 \<and> 0 \<le> g c \<and> g c \<le> 255 \<and> 0 \<le> b c \<and> b c \<le> 255"
  shows "trace (setColors p c s) =
           trace s @
           [OnChange (''rgb('' @ toString10 (r c) @ '', '' @ toString10 (b c) @ '', ''
                        @ toString10 (g c) @ '')'')
                     (CHR ''#'' # pad2 (toString16 (r c)) @ pad2 (toString16 (g c))
                        @ pad2 (toString16 (b c)))] @
           (if onPickEnd p then [OnPickEnd] else []) \<and>
         length (pad2 (toString16 (r c))) = 2 \<and>
         length (pad2 (toString16 (g c))) = 2 \<and>
         length (pad2 (toString16 (b c))) = 2"
  using assms
  by (simp add: setColors_def rgbToHex_def emit_def call_if_def Let_def pad2_toString16)

theorem setColors_encodings_witness:
  "(0 \<le> r \<lparr>r = 0, g = 255, b = 16\<rparr> \<and> r \<lparr>r = 0, g = 255, b = 16\<rparr> \<le> 255 \<and>
    0 \<le> g \<lparr>r = 0, g = 255, b = 16\<rparr> \<and> g \<lparr>r = 0, g = 255, b = 16\<rparr> \<le> 255 \<and>
    0 \<le> b \<lparr>r = 0, g = 255, b = 16\<rparr> \<and> b \<lparr>r = 0, g = 255, b = 16\<rparr> \<le> 255) \<and>
   trace (setColors all_hooks \<lparr>r = 0, g = 255, b = 16\<rparr> (constructor all_hooks ''auto'')) =
     [OnChange ''rgb(0, 16, 255)'' ''#00ff10'', OnPickEnd]"
  using setColors_encodings [of "\<lparr>r = 0, g = 255, b = 16\<rparr>" all_hooks "constructor all_hooks ''auto''"]
  by (simp add: toString16_def toString10_def pad2_def digits16.simps digits10.simps digit_def
        all_hooks_def constructor_def)

section \<open>Traces of the methods\<close>

lemma trace_setColors:
  "trace (setColors p c s) =
     trace s @ OnChange (''rgb('' @ toString10 (r c) @ '', '' @ toString10 (b c) @ '', ''
                        @ toString10 (g c) @ '')'') (rgbToHex (r c) (b c) (g c))
       # (if onPickEnd p then [OnPickEnd] else [])"
  by (simp add: setColors_def emit_def call_if_def Let_def)

lemma trace_stopPicking:
  "trace (stopPicking p s) = trace s @ (if onPickStop p then [OnPickStop] else [])"
  by (simp add: stopPicking_def removeEventListener_def emit_def call_if_def Let_def)

lemma trace_targetToCanvas:
  "trace (targetToCanvas p (t, ox, oy) s) =
     trace s @ Html2canvas t # (if onPickClick p then [OnPickClick] else [])
       @ (if onPickStop p then [OnPickStop] else [])"
  by (simp add: targetToCanvas_def trace_stopPicking emit_def call_if_def Let_def)

lemma pending_stopPicking: "pending (stopPicking p s) = pending s"
  by (simp add: stopPicking_def removeEventListener_def emit_def call_if_def Let_def)

lemma pending_targetToCanvas:
  "pending (targetToCanvas p (t, ox, oy) s) = pending s @ [(ox, oy)]"
  by (simp add: targetToCanvas_def pending_stopPicking emit_def call_if_def Let_def)

lemma trace_pickColor:
  "trace (pickColor p s) = trace s @ (if onPickStart p then [OnPickStart] else [])"
  by (simp add: pickColor_def addEventListener_def emit_def call_if_def Let_def)

lemma pending_pickColor: "pending (pickColor p s) = pending s"
  by (simp add: pickColor_def addEventListener_def emit_def call_if_def Let_def)

lemma filter_hook_reads: "filter is_hook (reads xys) = []"
  by (induction xys) (simp_all add: reads_def split: prod.splits)

section \<open>The neighbourhood loops\<close>

text \<open>
  Started at or above \<open>minRadius\<close>, a loop ends, and it has run its body once for every
  offset of the countdown.
\<close>

lemma countdown_step: "lo < hi \<Longrightarrow> countdown hi lo = hi # countdown (hi - 1) lo"
  by (simp add: countdown_def upto_rec2)

lemma countdown_empty: "countdown lo lo = []"
  by (simp add: countdown_def)

lemma loopY_countdown:
  "nat (y - minRadius) = n \<Longrightarrow> minRadius \<le> y \<Longrightarrow>
   loopY cv ox oy minRadius x y acc =
     Some (foldl (\<lambda>a y'. sample cv (ox - x) (oy - y') a) acc (countdown y minRadius))"
proof (induction n arbitrary: y acc)
  case 0
  then have "y = minRadius" by simp
  then show ?case by (subst loopY.simps) (simp add: countdown_empty)
next
  case (Suc n)
  then have lt: "minRadius < y" by simp
  have "loopY cv ox oy minRadius x y acc =
          loopY cv ox oy minRadius x (y - 1) (sample cv (ox - x) (oy - y) acc)"
    using lt by (subst loopY.simps) simp
  also have "\<dots> = Some (foldl (\<lambda>a y'. sample cv (ox - x) (oy - y') a)
                      (sample cv (ox - x) (oy - y) acc) (countdown (y - 1) minRadius))"
    using Suc.prems lt by (intro Suc.IH) simp_all
  finally show ?case using lt by (simp add: countdown_step)
qed

lemma loopX_countdown:
  "nat (x - minRadius) = n \<Longrightarrow> minRadius \<le> x \<Longrightarrow> minRadius \<le> maxRadius \<Longrightarrow>
   loopX cv ox oy maxRadius minRadius x acc =
     Some (foldl (\<lambda>a x'. foldl (\<lambda>a y'. sample cv (ox - x') (oy - y') a) a
                            (countdown maxRadius minRadius))
             acc (countdown x minRadius))"
proof (induction n arbitrary: x acc)
  case 0
  then have "x = minRadius" by simp
  then show ?case by (subst loopX.simps) (simp add: countdown_empty)
next
  case (Suc n)
  then have lt: "minRadius < x" by simp
  let ?row = "foldl (\<lambda>a y'. sample cv (ox - x) (oy - y') a) acc (countdown maxRadius minRadius)"
  have "loopX cv ox oy maxRadius minRadius x acc =
          loopX cv ox oy maxRadius minRadius (x - 1) ?row"
    using lt Suc.prems(3)
    by (subst loopX.simps) (simp add: loopY_countdown [OF refl])
  also have "\<dots> = Some (foldl (\<lambda>a x'. foldl (\<lambda>a y'. sample cv (ox - x') (oy - y') a) a
                            (countdown maxRadius minRadius)) ?row (countdown (x - 1) minRadius))"
    using Suc.prems lt by (intro Suc.IH) simp_all
  finally show ?case using lt by (simp add: countdown_step)
qed

lemma pixels_append: "pixels cv (xs @ ys) = pixels cv xs @ pixels cv ys"
  by (simp add: pixels_def)

lemma reads_append: "reads (xs @ ys) = reads xs @ reads ys"
  by (simp add: reads_def)

lemma sample_cell:
  "sample cv X Y (cs, s) =
     (cs @ pixels cv (if \<not> X < 0 \<and> \<not> Y < 0 then [(X, Y)] else []),
      s\<lparr>trace := trace s @ reads (if \<not> X < 0 \<and> \<not> Y < 0 then [(X, Y)] else [])\<rparr>)"
  by (simp add: sample_def emit_def pixels_def reads_def)

lemma row_samples:
  "foldl (\<lambda>a y'. sample cv X (oy - y') a) (cs, s) ys =
     (cs @ pixels cv (concat (map (\<lambda>y. if \<not> X < 0 \<and> \<not> oy - y < 0 then [(X, oy - y)] else []) ys)),
      s\<lparr>trace := trace s @ reads (concat (map (\<lambda>y. if \<not> X < 0 \<and> \<not> oy - y < 0 then [(X, oy - y)] else []) ys))\<rparr>)"
proof (induction ys arbitrary: cs s)
  case Nil
  show ?case by (simp add: pixels_def reads_def)
next
  case (Cons y ys)
  show ?case
    by (simp only: foldl.simps sample_cell Cons.IH list.map concat.simps pixels_append
          reads_append append_assoc) simp
qed

lemma grid_samples:
  "foldl (\<lambda>a x'. foldl (\<lambda>a y'. sample cv (ox - x') (oy - y') a) a ys) (cs, s) xs =
     (cs @ pixels cv [(ox - x, oy - y). x \<leftarrow> xs, y \<leftarrow> ys, \<not> ox - x < 0 \<and> \<not> oy - y < 0],
      s\<lparr>trace := trace s @ reads [(ox - x, oy - y). x \<leftarrow> xs, y \<leftarrow> ys, \<not> ox - x < 0 \<and> \<not> oy - y < 0]\<rparr>)"
proof (induction xs arbitrary: cs s)
  case Nil
  show ?case by (simp add: pixels_def reads_def)
next
  case (Cons x xs)
  show ?case
    by (simp only: foldl.simps row_samples Cons.IH list.map concat.simps pixels_append
          reads_append append_assoc) simp
qed

lemma radii_valid: "valid_spec pr \<Longrightarrow> radii pr = Inr (spec_radii pr)"
  by (auto simp: valid_spec_def radii_def spec_radii_def)

lemma spec_radii_ordered: "valid_spec pr \<Longrightarrow> snd (spec_radii pr) \<le> fst (spec_radii pr)"
  by (auto simp: valid_spec_def spec_radii_def)

lemma extractColors_valid:
  assumes "pickRadius p = Some pr" and "valid_spec pr"
  shows "extractColors p cv cx cy s =
           Some (Inr (calcAverageColor p (pixels cv (spec_coords pr cx cy))
                        (s\<lparr>trace := trace s @ reads (spec_coords pr cx cy)\<rparr>)))"
proof -
  obtain maxRadius minRadius where mm: "spec_radii pr = (maxRadius, minRadius)"
    by (cases "spec_radii pr")
  have le: "minRadius \<le> maxRadius" using spec_radii_ordered [OF assms(2)] mm by simp
  show ?thesis
    using assms le
    by (simp add: extractColors_def radii_valid mm loopX_countdown [OF refl] grid_samples
          spec_coords_def)
qed

text \<open>
  Validity is needed: the code checks the amount only for the unit \<^verbatim>\<open>pixel\<close>, and only
  whether it is odd. A loop started below \<open>minRadius\<close> does not end, so with the radius
  \<open>- 1\<close> \<^verbatim>\<open>extractColors\<close> does not return.
\<close>

lemma loopY_ends_above:
  assumes "loopY cv ox oy minRadius x y acc = Some res"
  shows "minRadius \<le> y"
proof (rule loopY.raw_induct
    [where P = "\<lambda>cv ox oy minRadius x y acc res. minRadius \<le> y"
       and xa = "((((((cv, ox), oy), minRadius), x), y), acc)" and ya = res, simplified,
     OF _ assms])
  fix f :: "canvas \<Rightarrow> int \<Rightarrow> int \<Rightarrow> int \<Rightarrow> int \<Rightarrow> int \<Rightarrow> color list \<times> state
     \<Rightarrow> (color list \<times> state) option"
  fix cv' ox' oy' m x' y' acc' res'
  assume IH: "\<And>a1 a2 a3 a4 a5 a6 a7 res. f a1 a2 a3 a4 a5 a6 a7 = Some res \<Longrightarrow> a4 \<le> a6"
    and eq: "(if y' \<noteq> m then f cv' ox' oy' m x' (y' - 1) (sample cv' (ox' - x') (oy' - y') acc')
              else Some acc') = Some res'"
  show "m \<le> y'"
  proof (cases "y' = m")
    case True
    then show ?thesis by simp
  next
    case False
    with eq have "f cv' ox' oy' m x' (y' - 1) (sample cv' (ox' - x') (oy' - y') acc') = Some res'"
      by simp
    then have "m \<le> y' - 1" by (rule IH)
    then show ?thesis by simp
  qed
qed

lemma loopY_below: "y < minRadius \<Longrightarrow> loopY cv ox oy minRadius x y acc = None"
  using loopY_ends_above [of cv ox oy minRadius x y acc]
  by (cases "loopY cv ox oy minRadius x y acc") auto

lemma extractColors_negative_radius:
  assumes "pickRadius p = Some \<lparr>unit = ''radius'', amount = - 1\<rparr>"
  shows "extractColors p cv cx cy s = None"
proof -
  have "loopX cv cx cy (- 1) 0 (- 1) ([], s) = None"
    by (subst loopX.simps) (simp add: loopY_below)
  then show ?thesis using assms by (simp add: extractColors_def radii_def)
qed


lemma map_minus_rev_upto: "map (\<lambda>x. c - x) (rev [lo..hi]) = [c - hi..c - lo]"
proof (induction "nat (hi - lo + 1)" arbitrary: hi)
  case 0
  then show ?case by simp
next
  case (Suc n)
  then have le: "lo \<le> hi" by simp
  have "n = nat (hi - 1 - lo + 1)" using Suc.hyps(2) by simp
  then have IH: "map (\<lambda>x. c - x) (rev [lo..hi - 1]) = [c - (hi - 1)..c - lo]"
    by (rule Suc.hyps(1))
  have "[c - hi..c - lo] = (c - hi) # [c - hi + 1..c - lo]"
    using le by (subst upto_rec1) simp_all
  then show ?case using le IH by (simp add: upto_rec2 algebra_simps)
qed

lemma concat_map_minus:
  "concat (map (\<lambda>x. f (c - x)) (rev [lo..hi])) = concat (map f [c - hi..c - lo])"
proof -
  have "map (\<lambda>x. f (c - x)) (rev [lo..hi]) = map f (map (\<lambda>x. c - x) (rev [lo..hi]))"
    by (simp add: o_def)
  then show ?thesis by (simp only: map_minus_rev_upto)
qed

lemma countdown_grid:
  "[(cx - x, cy - y). x \<leftarrow> countdown hi lo, y \<leftarrow> countdown hi lo, \<not> cx - x < 0 \<and> \<not> cy - y < 0] =
   [(x, y). x \<leftarrow> [cx - hi..cx - lo - 1], y \<leftarrow> [cy - hi..cy - lo - 1], \<not> x < 0 \<and> \<not> y < 0]"
proof -
  have inner:
    "concat (map (\<lambda>y. if \<not> X < 0 \<and> \<not> cy - y < 0 then [(X, cy - y)] else []) (rev [lo + 1..hi])) =
     concat (map (\<lambda>y. if \<not> X < 0 \<and> \<not> y < 0 then [(X, y)] else []) [cy - hi..cy - (lo + 1)])"
    for X
    by (rule concat_map_minus [of "\<lambda>y. if \<not> X < 0 \<and> \<not> y < 0 then [(X, y)] else []"])
  have outer:
    "concat (map (\<lambda>x. concat (map (\<lambda>y. if \<not> cx - x < 0 \<and> \<not> y < 0 then [(cx - x, y)] else [])
                                ys)) (rev [lo + 1..hi])) =
     concat (map (\<lambda>x. concat (map (\<lambda>y. if \<not> x < 0 \<and> \<not> y < 0 then [(x, y)] else [])
                                ys)) [cx - hi..cx - (lo + 1)])"
    for ys
    by (rule concat_map_minus
          [of "\<lambda>x. concat (map (\<lambda>y. if \<not> x < 0 \<and> \<not> y < 0 then [(x, y)] else []) ys)"])
  have arith: "cx - (lo + 1) = cx - lo - 1" "cy - (lo + 1) = cy - lo - 1" by simp_all
  show ?thesis
    unfolding countdown_def inner outer by (simp only: arith)
qed

lemma spec_coords_pixel5:
  "spec_coords \<lparr>unit = ''pixel'', amount = 5\<rparr> cx cy =
     [(x, y). x \<leftarrow> [cx - 2..cx + 2], y \<leftarrow> [cy - 2..cy + 2], \<not> x < 0 \<and> \<not> y < 0]"
proof -
  have "spec_radii \<lparr>unit = ''pixel'', amount = 5\<rparr> = (2, - 3)"
    by (simp add: spec_radii_def)
  then show ?thesis
    unfolding spec_coords_def by (simp only: prod.case countdown_grid) (simp add: add.commute)
qed

text \<open>
  Claim C5. For a valid neighbourhood spec and a centre \<open>(cx, cy)\<close>, \<^verbatim>\<open>extractColors\<close>
  returns, and it has read exactly the coordinates of the specification, in the
  specification's order: radii from unit and amount, the offsets \<open>x\<close> and \<open>y\<close> counted
  down from \<open>maxRadius\<close> to \<open>minRadius\<close> (excluded), the pixel at \<open>(cx - x, cy - y)\<close>,
  coordinates with a negative component skipped; the colours read are averaged. For
  5 pixels the coordinates are the 5 by 5 grid around the centre without the cells that
  have a negative coordinate.
\<close>

theorem extractColors_neighbourhood:
  assumes "pickRadius p = Some pr" and "valid_spec pr"
  shows "extractColors p cv cx cy s =
           Some (Inr (calcAverageColor p (pixels cv (spec_coords pr cx cy))
                        (s\<lparr>trace := trace s @ reads (spec_coords pr cx cy)\<rparr>))) \<and>
         (pr = \<lparr>unit = ''pixel'', amount = 5\<rparr> \<longrightarrow>
            spec_coords pr cx cy =
              [(x, y). x \<leftarrow> [cx - 2..cx + 2], y \<leftarrow> [cy - 2..cy + 2], \<not> x < 0 \<and> \<not> y < 0])"
  using extractColors_valid [OF assms] spec_coords_pixel5 by simp

theorem extractColors_neighbourhood_witness:
  "pickRadius (pixel_props 5) = Some \<lparr>unit = ''pixel'', amount = 5\<rparr> \<and>
   valid_spec \<lparr>unit = ''pixel'', amount = 5\<rparr> \<and>
   spec_coords \<lparr>unit = ''pixel'', amount = 5\<rparr> 1 0 =
     [(0, 0), (0, 1), (0, 2), (1, 0), (1, 1), (1, 2), (2, 0), (2, 1), (2, 2),
      (3, 0), (3, 1), (3, 2)] \<and>
   extractColors (pixel_props 5) gradient 1 0 (constructor (pixel_props 5) ''auto'') =
     Some (Inr (calcAverageColor (pixel_props 5)
       (pixels gradient [(0, 0), (0, 1), (0, 2), (1, 0), (1, 1), (1, 2), (2, 0), (2, 1), (2, 2),
          (3, 0), (3, 1), (3, 2)])
       ((constructor (pixel_props 5) ''auto'')
          \<lparr>trace := reads [(0, 0), (0, 1), (0, 2), (1, 0), (1, 1), (1, 2), (2, 0), (2, 1), (2, 2),
          (3, 0), (3, 1), (3, 2)]\<rparr>)))"
proof -
  have p: "pickRadius (pixel_props 5) = Some \<lparr>unit = ''pixel'', amount = 5\<rparr>"
    by (simp add: pixel_props_def)
  have v: "valid_spec \<lparr>unit = ''pixel'', amount = 5\<rparr>"
    by (simp add: valid_spec_def)
  have c: "spec_coords \<lparr>unit = ''pixel'', amount = 5\<rparr> 1 0 =
     [(0, 0), (0, 1), (0, 2), (1, 0), (1, 1), (1, 2), (2, 0), (2, 1), (2, 2),
      (3, 0), (3, 1), (3, 2)]"
    by (simp add: spec_coords_pixel5 upto_rec1)
  have t: "trace (constructor (pixel_props 5) ''auto'') = []"
    by (simp add: constructor_def)
  show ?thesis
    using extractColors_neighbourhood [OF p v, of gradient 1 0 "constructor (pixel_props 5) ''auto''"]
    by (simp add: p v c t)
qed

text \<open>
  Claim C2. The claim says that a single sample comes back unchanged. The code adds the
  square of the sample to each total and takes no square root at index 0, so the one
  sample (10, 20, 30) comes back as (100, 400, 900); a neighbourhood of 1 pixel hands
  exactly such a one-sample list to \<^verbatim>\<open>calcAverageColor\<close>.
\<close>

theorem calcAverageColor_single_sample:
  "averageOf [\<lparr>r = 10, g = 20, b = 30\<rparr>] = \<lparr>r = 100, g = 400, b = 900\<rparr> \<and>
   extractColors (pixel_props 1) swatch 0 0 s =
     Some (Inr (calcAverageColor (pixel_props 1) [\<lparr>r = 10, g = 20, b = 30\<rparr>]
                  (s\<lparr>trace := trace s @ [GetCanvasPixelColor 0 0]\<rparr>)))"
proof -
  have p: "pickRadius (pixel_props 1) = Some \<lparr>unit = ''pixel'', amount = 1\<rparr>"
    by (simp add: pixel_props_def)
  have v: "valid_spec \<lparr>unit = ''pixel'', amount = 1\<rparr>"
    by (simp add: valid_spec_def)
  have c: "spec_coords \<lparr>unit = ''pixel'', amount = 1\<rparr> 0 0 = [(0, 0)]"
    by (simp add: spec_coords_def spec_radii_def countdown_def upto_rec1)
  have a: "averageOf [\<lparr>r = 10, g = 20, b = 30\<rparr>] = \<lparr>r = 100, g = 400, b = 900\<rparr>"
    by (simp add: averageOf_def calcTotals_def calcStep_def parseInt_def)
  show ?thesis
    using extractColors_valid [OF p v, of swatch 0 0 s]
    by (simp add: a c pixels_def reads_def swatch_def)
qed

section \<open>Validation of the neighbourhood spec\<close>

lemma radii_invalid:
  "invalid_spec pr \<Longrightarrow>
   radii pr = Inl (if unit pr = ''pixel'' then PixelEvenAmount else ImproperUnit)"
  by (auto simp: invalid_spec_def radii_def)

text \<open>
  Claim C4, as stated, fails: with 4 pixels the click listener returns normally, after it
  has called \<^verbatim>\<open>html2canvas\<close>, the click hook and the stop hook; the error is thrown
  later, in the continuation, with all these effects in the trace.
\<close>

theorem invalid_spec_counterexample:
  "on_trace id (canvasResolved (pixel_props 4) blank
      (targetToCanvas (pixel_props 4) (0, 3, 3)
         (pickColor (pixel_props 4) (constructor (pixel_props 4) ''auto'')))) =
     Some (Inl (PixelEvenAmount, [OnPickStart, Html2canvas 0, OnPickClick, OnPickStop]))"
  by (simp add: on_trace_def canvasResolved_def pending_targetToCanvas pending_pickColor
        trace_targetToCanvas trace_pickColor extractColors_def radii_def pixel_props_def
        all_hooks_def constructor_def)

lemma extractColors_invalid:
  assumes "pickRadius p = Some pr" and "invalid_spec pr"
  shows "extractColors p cv X Y s =
           Some (Inl (if unit pr = ''pixel'' then PixelEvenAmount else ImproperUnit, s))"
  using assms by (simp add: extractColors_def radii_invalid)

lemma canvasResolved_radius:
  assumes "pickRadius p = Some pr" and "pending s = (X, Y) # rest"
  shows "canvasResolved p cv s = extractColors p cv X Y (s\<lparr>pending := rest\<rparr>)"
  using assms by (simp add: canvasResolved_def)

text \<open>
  Claim C4, amended. For an invalid neighbourhood spec the click listener itself does not
  fail: it requests the rasterization, calls the click hook and tears down (stop hook).
  The configuration error is thrown by the continuation once the canvas is there, before
  any pixel is read: the trace at the throw is the trace the click listener left. With
  5 pixels the continuation returns.
\<close>

theorem invalid_spec_fails_before_sampling:
  assumes "pickRadius p = Some pr" and "invalid_spec pr"
  shows "(\<exists>s'. canvasResolved p cv (targetToCanvas p (t, ox, oy) s) =
              Some (Inl (if unit pr = ''pixel'' then PixelEvenAmount else ImproperUnit, s')) \<and>
            trace s' = trace (targetToCanvas p (t, ox, oy) s)) \<and>
         trace (targetToCanvas p (t, ox, oy) s) =
           trace s @ Html2canvas t # (if onPickClick p then [OnPickClick] else [])
             @ (if onPickStop p then [OnPickStop] else []) \<and>
         (\<forall>q. pickRadius q = Some \<lparr>unit = ''pixel'', amount = 5\<rparr> \<longrightarrow>
            (\<exists>s'. canvasResolved q cv (targetToCanvas q (t, ox, oy) s) = Some (Inr s')))"
proof -
  obtain X Y rest where pd: "pending s @ [(ox, oy)] = (X, Y) # rest"
    by (cases "pending s @ [(ox, oy)]") auto
  have pq: "pending (targetToCanvas q (t, ox, oy) s) = (X, Y) # rest" for q
    using pd by (simp add: pending_targetToCanvas)
  have five: "valid_spec \<lparr>unit = ''pixel'', amount = 5\<rparr>" by (simp add: valid_spec_def)
  have A: "canvasResolved p cv (targetToCanvas p (t, ox, oy) s) =
             Some (Inl (if unit pr = ''pixel'' then PixelEvenAmount else ImproperUnit,
                        (targetToCanvas p (t, ox, oy) s)\<lparr>pending := rest\<rparr>))"
    by (simp only: canvasResolved_radius [OF assms(1) pq] extractColors_invalid [OF assms])
  have C: "\<exists>s'. canvasResolved q cv (targetToCanvas q (t, ox, oy) s) = Some (Inr s')"
    if "pickRadius q = Some \<lparr>unit = ''pixel'', amount = 5\<rparr>" for q
    by (simp only: canvasResolved_radius [OF that pq] extractColors_valid [OF that five]) blast
  show ?thesis
    using A C by (simp add: trace_targetToCanvas)
qed

theorem invalid_spec_fails_before_sampling_witness:
  "pickRadius (pixel_props 4) = Some \<lparr>unit = ''pixel'', amount = 4\<rparr> \<and>
   invalid_spec \<lparr>unit = ''pixel'', amount = 4\<rparr> \<and>
   trace (targetToCanvas (pixel_props 4) (0, 3, 3) (constructor (pixel_props 4) ''auto'')) =
     [Html2canvas 0, OnPickClick, OnPickStop] \<and>
   (\<exists>s'. canvasResolved (pixel_props 4) blank
           (targetToCanvas (pixel_props 4) (0, 3, 3) (constructor (pixel_props 4) ''auto'')) =
          Some (Inl (PixelEvenAmount, s')) \<and>
         trace s' = [Html2canvas 0, OnPickClick, OnPickStop]) \<and>
   (\<exists>s'. canvasResolved (pixel_props 5) blank
           (targetToCanvas (pixel_props 5) (0, 3, 3) (constructor (pixel_props 4) ''auto'')) =
          Some (Inr s'))"
proof -
  have p4: "pickRadius (pixel_props 4) = Some \<lparr>unit = ''pixel'', amount = 4\<rparr>"
    by (simp add: pixel_props_def)
  have p5: "pickRadius (pixel_props 5) = Some \<lparr>unit = ''pixel'', amount = 5\<rparr>"
    by (simp add: pixel_props_def)
  have inv: "invalid_spec \<lparr>unit = ''pixel'', amount = 4\<rparr>"
    by (simp add: invalid_spec_def)
  have hooks: "onPickClick (pixel_props 4)" "onPickStop (pixel_props 4)"
    "trace (constructor (pixel_props 4) ''auto'') = []"
    by (simp_all add: pixel_props_def all_hooks_def constructor_def)
  show ?thesis
    using invalid_spec_fails_before_sampling
            [OF p4 inv, of blank 0 3 3 "constructor (pixel_props 4) ''auto''"]
    by (auto simp add: p4 p5 inv hooks)
qed

section \<open>The lifecycle\<close>

text \<open>
  Claim C6. The claim says that unmounting removes the cancel-key listener that
  \<^verbatim>\<open>pickColor\<close> has registered. \<^verbatim>\<open>pickColor\<close> registers it for \<^verbatim>\<open>keydown\<close> and
  \<^verbatim>\<open>componentWillUnmount\<close> removes a listener for \<^verbatim>\<open>keypress\<close>: after mounting,
  arming and unmounting, both listeners are still attached.
\<close>

theorem unmount_keeps_keydown_listener:
  "listeners (componentWillUnmount (pickColor p (componentDidMount p (constructor p cur)))) =
     [(''click'', TargetToCanvas), (''keydown'', HandleKeydown)]"
  by (simp add: componentWillUnmount_def pickColor_def componentDidMount_def constructor_def
        addEventListener_def removeEventListener_def call_if_def emit_def Let_def)

text \<open>
  Claim C7, as stated, fails: \<^verbatim>\<open>stopPicking\<close> called twice calls the stop hook twice, and
  called on a component that was never armed it is not a no-op (it sets the cursor and
  calls the stop hook).
\<close>

theorem stopPicking_twice_counterexample:
  "trace (stopPicking all_hooks (stopPicking all_hooks (pickColor all_hooks (constructor all_hooks ''auto''))))
     = [OnPickStart, OnPickStop, OnPickStop] \<and>
   stopPicking all_hooks (constructor all_hooks ''wait'') \<noteq> constructor all_hooks ''wait''"
  by (simp add: trace_stopPicking trace_pickColor all_hooks_def constructor_def stopPicking_def
    removeEventListener_def call_if_def emit_def Let_def or_else_def)

text \<open>
  Claim C7, amended. \<^verbatim>\<open>stopPicking\<close> has no guard and never throws; a second call in a
  row leaves the listeners, the cursor and the picking flag as the first call left them,
  and calls the stop hook once more when the host passed one.
\<close>

theorem stopPicking_twice:
  "stopPicking p (stopPicking p s) =
     (stopPicking p s)\<lparr>trace := trace (stopPicking p s) @ (if onPickStop p then [OnPickStop] else [])\<rparr>"
  by (simp add: stopPicking_def removeEventListener_def call_if_def emit_def Let_def)

text \<open>
  Claim C8. The Escape key runs \<^verbatim>\<open>cancelPick\<close>. On a component that is not picking
  \<^verbatim>\<open>cancelPick\<close> changes nothing and calls no hook. On a picking component it calls the cancel hook once (when passed), then does
  what \<^verbatim>\<open>stopPicking\<close> does: the two listeners are gone, the cursor is the inactive one,
  the component is not picking any more; no colour is reported and none is stored.
\<close>

theorem cancelPick_idle_armed:
  "handleKeydown p ''Escape'' s = cancelPick p s \<and>
   (\<not> picking s \<longrightarrow> cancelPick p s = s) \<and>
   (picking s \<longrightarrow>
      cancelPick p s = stopPicking p (call_if (onPickCancel p) OnPickCancel s) \<and>
      \<not> picking (cancelPick p s) \<and>
      trace (cancelPick p s) =
        trace s @ (if onPickCancel p then [OnPickCancel] else [])
                @ (if onPickStop p then [OnPickStop] else []) \<and>
      (''click'', TargetToCanvas) \<notin> set (listeners (cancelPick p s)) \<and>
      (''keydown'', HandleKeydown) \<notin> set (listeners (cancelPick p s)) \<and>
      body_cursor (cancelPick p s) = this_cursorInactive s \<and>
      colors (cancelPick p s) = colors s \<and>
      pending (cancelPick p s) = pending s)"
  by (simp add: handleKeydown_def cancelPick_def stopPicking_def removeEventListener_def
        call_if_def emit_def Let_def)

theorem cancelPick_idle_armed_witness:
  "\<not> picking (constructor all_hooks ''auto'') \<and>
   cancelPick all_hooks (constructor all_hooks ''auto'') = constructor all_hooks ''auto'' \<and>
   picking (pickColor all_hooks (constructor all_hooks ''auto'')) \<and>
   \<not> picking (cancelPick all_hooks (pickColor all_hooks (constructor all_hooks ''auto''))) \<and>
   trace (cancelPick all_hooks (pickColor all_hooks (constructor all_hooks ''auto''))) =
     [OnPickStart, OnPickCancel, OnPickStop]"
proof -
  let ?idle = "constructor all_hooks ''auto''"
  let ?armed = "pickColor all_hooks ?idle"
  have idle: "\<not> picking ?idle" by (simp add: constructor_def)
  have armed: "picking ?armed"
    by (simp add: pickColor_def addEventListener_def call_if_def emit_def Let_def)
  have tr: "trace ?armed = [OnPickStart]"
    by (simp add: trace_pickColor all_hooks_def constructor_def)
  have hooks: "onPickCancel all_hooks" "onPickStop all_hooks" by (simp_all add: all_hooks_def)
  from cancelPick_idle_armed [of all_hooks ?idle] idle
  have A: "cancelPick all_hooks ?idle = ?idle" by blast
  from cancelPick_idle_armed [of all_hooks ?armed] armed
  have B: "\<not> picking (cancelPick all_hooks ?armed)"
    "trace (cancelPick all_hooks ?armed) =
       trace ?armed @ (if onPickCancel all_hooks then [OnPickCancel] else [])
         @ (if onPickStop all_hooks then [OnPickStop] else [])" by blast+
  show ?thesis using idle armed A B tr hooks by simp
qed

lemma canvasResolved_single:
  assumes "pickRadius p = None" and "pending s = (X, Y) # rest"
  shows "canvasResolved p cv s = Some (Inr (extractColor p cv X Y (s\<lparr>pending := rest\<rparr>)))"
  using assms by (simp add: canvasResolved_def)

lemma trace_extractColor:
  "filter is_hook (trace (extractColor p cv X Y s)) =
     filter is_hook (trace s) @ (if onPickEnd p then [OnPickEnd] else [])"
  by (simp add: extractColor_def trace_setColors emit_def)

lemma trace_calcAverageColor:
  "filter is_hook (trace (calcAverageColor p cs s)) =
     filter is_hook (trace s) @ (if onPickEnd p then [OnPickEnd] else [])"
  by (simp add: calcAverageColor_def trace_setColors)

lemma armed_clicked:
  "pending (targetToCanvas p (t, ox, oy) (pickColor p s)) = pending s @ [(ox, oy)] \<and>
   filter is_hook (trace (targetToCanvas p (t, ox, oy) (pickColor p s))) =
     filter is_hook (trace s) @ filter (supplied p) [OnPickStart, OnPickClick, OnPickStop]"
  by (simp add: pending_targetToCanvas pending_pickColor trace_targetToCanvas trace_pickColor)

lemma mounted:
  "trace (componentDidMount p (constructor p cur)) = filter (supplied p) [OnInit] \<and>
   pending (componentDidMount p (constructor p cur)) = []"
  by (simp add: componentDidMount_def constructor_def call_if_def emit_def)

text \<open>
  Claim C9. Mounting calls the init hook. From then on, whatever has happened before, a
  full pick (arm, click, canvas resolved, with no neighbourhood spec or a valid one and
  no earlier canvas outstanding) returns, and the hooks it calls are those that were
  passed among pick-start, pick-click, pick-stop, pick-end, in this order.
\<close>

theorem full_pick_hook_order:
  assumes "pickRadius p = None \<or> (\<exists>pr. pickRadius p = Some pr \<and> valid_spec pr)"
    and "pending s = []"
  shows "trace (componentDidMount p (constructor p cur)) = filter (supplied p) [OnInit] \<and>
         (\<exists>s'. canvasResolved p cv (targetToCanvas p (t, ox, oy) (pickColor p s)) =
                 Some (Inr s') \<and>
               filter is_hook (trace s') =
                 filter is_hook (trace s) @
                 filter (supplied p) [OnPickStart, OnPickClick, OnPickStop, OnPickEnd])"
proof -
  let ?s = "targetToCanvas p (t, ox, oy) (pickColor p s)"
  have pd: "pending ?s = (ox, oy) # []"
    and tr: "filter is_hook (trace ?s) =
               filter is_hook (trace s) @ filter (supplied p) [OnPickStart, OnPickClick, OnPickStop]"
    using armed_clicked [of p t ox oy s] assms(2) by simp_all
  have "\<exists>s'. canvasResolved p cv ?s = Some (Inr s') \<and>
               filter is_hook (trace s') =
                 filter is_hook (trace s) @
                 filter (supplied p) [OnPickStart, OnPickClick, OnPickStop, OnPickEnd]"
    using assms(1)
  proof
    assume none: "pickRadius p = None"
    show ?thesis
      by (simp add: canvasResolved_single [OF none pd] trace_extractColor tr)
  next
    assume "\<exists>pr. pickRadius p = Some pr \<and> valid_spec pr"
    then obtain pr where pr: "pickRadius p = Some pr" and v: "valid_spec pr" by blast
    show ?thesis
      by (simp add: canvasResolved_radius [OF pr pd] extractColors_valid [OF pr v]
            trace_calcAverageColor filter_hook_reads tr)
  qed
  then show ?thesis using mounted [of p cur] by simp
qed

theorem full_pick_hook_order_witness:
  "(\<exists>pr. pickRadius (pixel_props 3) = Some pr \<and> valid_spec pr) \<and>
   pending (componentDidMount (pixel_props 3) (constructor (pixel_props 3) ''auto'')) = [] \<and>
   (\<exists>s'. canvasResolved (pixel_props 3) gradient
           (targetToCanvas (pixel_props 3) (7, 1, 1)
              (pickColor (pixel_props 3)
                 (componentDidMount (pixel_props 3) (constructor (pixel_props 3) ''auto'')))) =
          Some (Inr s') \<and>
         filter is_hook (trace s') = [OnInit, OnPickStart, OnPickClick, OnPickStop, OnPickEnd])"
proof -
  let ?m = "componentDidMount (pixel_props 3) (constructor (pixel_props 3) ''auto'')"
  have v: "\<exists>pr. pickRadius (pixel_props 3) = Some pr \<and> valid_spec pr"
    by (simp add: pixel_props_def valid_spec_def)
  have pd: "pending ?m = []"
    using mounted [of "pixel_props 3" "''auto''"] by simp
  have hooks:
    "filter (supplied (pixel_props 3)) [OnPickStart, OnPickClick, OnPickStop, OnPickEnd]
       = [OnPickStart, OnPickClick, OnPickStop, OnPickEnd]"
    "filter (supplied (pixel_props 3)) [OnInit] = [OnInit]"
    by (simp_all add: pixel_props_def all_hooks_def)
  from full_pick_hook_order [OF disjI2, OF v pd, of "''auto''" gradient 7 1 1]
  obtain s' where
    res: "canvasResolved (pixel_props 3) gradient
            (targetToCanvas (pixel_props 3) (7, 1, 1) (pickColor (pixel_props 3) ?m)) =
          Some (Inr s')"
    and tr: "filter is_hook (trace s') =
               filter is_hook (trace ?m) @
               filter (supplied (pixel_props 3)) [OnPickStart, OnPickClick, OnPickStop, OnPickEnd]"
    and mt: "trace ?m = filter (supplied (pixel_props 3)) [OnInit]"
    by blast
  have "filter is_hook (trace s') = [OnInit, OnPickStart, OnPickClick, OnPickStop, OnPickEnd]"
    by (simp only: tr mt hooks) simp
  then show ?thesis using v pd res by simp
qed

end
